theory Spec2Isabelle
  imports Main "HOL-Library.Word" "HOL-Library.Monad_Syntax"
begin

section \<open>Actions\<close>

text \<open>
  State types and action types are template parameters in the source. A state type is named
  by its position in the pack \<open>States...\<close> of \<open>StateMachine<States...>\<close>, an action type by a
  term of \<open>action_type\<close>. \<open>Nothing\<close> and \<open>TransitionTo<Target>\<close> are empty structs, so each has
  one value; a \<open>OneOf<Actions...>\<close> value is its member \<open>std::variant<Actions...> options\<close>:
  the index of the alternative held and the alternative itself.
\<close>

datatype action_type = NothingT | TransitionToT nat | OneOfT "action_type list"

datatype action = Nothing | TransitionTo nat | OneOf nat action

fun has_type :: "action \<Rightarrow> action_type \<Rightarrow> bool" where
  "has_type Nothing NothingT = True"
| "has_type (TransitionTo t) (TransitionToT t') = (t = t')"
| "has_type (OneOf i a) (OneOfT As) = (i < length As \<and> has_type a (As ! i))"
| "has_type _ _ = False"

text \<open>
  \<open>Action{}\<close>: the value-initialised action. \<open>OneOf\<close> declares only the converting constructor
  \<open>OneOf(T&& arg)\<close>, so \<open>OneOf<...>{}\<close> does not build; that is the result \<open>None\<close>.
\<close>

fun default_action :: "action_type \<Rightarrow> action option" where
  "default_action NothingT = Some Nothing"
| "default_action (TransitionToT t) = Some (TransitionTo t)"
| "default_action (OneOfT As) = None"

fun is_OneOfT :: "action_type \<Rightarrow> bool" where
  "is_OneOfT (OneOfT As) = True"
| "is_OneOfT _ = False"

text \<open>
  \<open>template <typename T> OneOf(T&& arg) : options(std::forward<T>(arg))\<close>. The converting
  constructor of \<open>std::variant<Actions...>\<close> selects the alternative by overload resolution
  over one imaginary function per alternative, taking that alternative by value. An
  alternative of the argument's own type \<open>T\<close> is an exact match and wins; two of them are
  ambiguous. \<open>Nothing\<close> and \<open>TransitionTo<Target>\<close> have no converting constructor, so they
  accept only their own type. Every \<open>OneOf<Bs...>\<close> alternative accepts any argument through
  a user-defined conversion, because the constructor template of \<open>OneOf\<close> is unconstrained
  and not explicit: with no exact match, one such alternative is selected and is built from
  the argument by its own constructor (which must build in turn), and two or more are
  ambiguous. \<open>None\<close> is a construction that does not build.
\<close>

function OneOf_ctor :: "action_type list \<Rightarrow> action_type \<Rightarrow> action \<Rightarrow> action option" where
  "OneOf_ctor Actions T arg =
     (case filter (\<lambda>i. Actions ! i = T) [0..<length Actions] of
        [i] \<Rightarrow> Some (OneOf i arg)
      | _ # _ # _ \<Rightarrow> None
      | [] \<Rightarrow>
          (case filter (\<lambda>i. is_OneOfT (Actions ! i)) [0..<length Actions] of
             [i] \<Rightarrow>
               (case Actions ! i of
                  OneOfT Bs \<Rightarrow> map_option (OneOf i) (OneOf_ctor Bs T arg)
                | _ \<Rightarrow> None)
           | _ \<Rightarrow> None))"
  by pat_completeness auto
termination
proof (relation "measure (\<lambda>(Actions, T, arg). size_list size Actions)")
  show "wf (measure (\<lambda>(Actions, T, arg). size_list size Actions))" by simp
next
  fix Actions :: "action_type list" and T :: action_type and arg :: action
    and i :: nat and js :: "nat list" and Bs :: "action_type list"
  assume f: "filter (\<lambda>i. is_OneOfT (Actions ! i)) [0..<length Actions] = i # js"
    and B: "Actions ! i = OneOfT Bs"
  have "i \<in> set (filter (\<lambda>i. is_OneOfT (Actions ! i)) [0..<length Actions])"
    by (simp only: f list.set_intros)
  then have "i < length Actions" by simp
  then have "Actions ! i \<in> set Actions" by simp
  then have "size (Actions ! i) \<le> size_list size Actions"
    by (rule size_list_estimation') simp
  then have "size_list size Bs < size_list size Actions" by (simp add: B)
  then show "((Bs, T, arg), (Actions, T, arg))
               \<in> measure (\<lambda>(Actions, T, arg). size_list size Actions)"
    by simp
qed

declare OneOf_ctor.simps [simp del]

text \<open>\<open>struct Maybe : public OneOf<Action, Nothing> { using OneOf<Action, Nothing>::OneOf; }\<close>\<close>

definition Maybe :: "action_type \<Rightarrow> action_type" where
  "Maybe Action = OneOfT [Action, NothingT]"

definition Maybe_ctor :: "action_type \<Rightarrow> action_type \<Rightarrow> action \<Rightarrow> action option" where
  "Maybe_ctor Action T arg = OneOf_ctor [Action, NothingT] T arg"

section \<open>The engine and the objects it owns\<close>

text \<open>
  A machine object lives at an address. A \<open>State*\<close> is null or the address of the element at
  some position of the tuple \<open>states\<close> of the machine at some address. The member
  \<open>std::variant<States*...> currentState\<close> holds the index of its alternative together with
  the pointer of that alternative.
\<close>

type_synonym addr = nat

datatype ptr = nullptr | Ptr addr nat

record variant =
  index :: nat
  pointer :: ptr

record 's StateMachine =
  states :: "'s list"
  currentState :: variant

type_synonym 's heap = "addr \<Rightarrow> 's StateMachine option"

text \<open>
  What the engine calls on a state type (\<open>statePtr->handle(event)\<close>) and what the hooks,
  the default constructor and a move leave behind. All handlers of the repository are
  \<open>const\<close> member functions, so a handler reads the state and returns an action. \<open>None\<close>
  from \<open>state_handle\<close> is a call that does not build (no overload, or an action that cannot
  be constructed). \<open>onLeave e = None\<close> says that the state type has no \<open>onLeave\<close> for the
  type of event \<open>e\<close>. A hook is a member function of the state: it is given the event, it
  may read every object there is at the time of the call (a state may hold a pointer to its
  machine and ask which state is current), and it writes the state it is called on; so a
  hook \<open>f\<close> maps the heap of the moment and the state to the new state.
  \<open>default_ctor = None\<close> says that the type is not default-constructible.
  \<open>moved_from s\<close> is the value left in an object whose value \<open>s\<close> was moved out.
\<close>

record ('s, 'e) state_type =
  state_handle :: "'s \<Rightarrow> 'e \<Rightarrow> action option"
  onLeave :: "'e \<Rightarrow> ('s heap \<Rightarrow> 's \<Rightarrow> 's) option"
  onEnter :: "'e \<Rightarrow> ('s heap \<Rightarrow> 's \<Rightarrow> 's) option"
  default_ctor :: "'s option"
  moved_from :: "'s \<Rightarrow> 's"

text \<open>Initialising a \<open>std::variant<States*...>\<close> from a pointer of type \<open>States[i]*\<close>.\<close>

definition variant_from :: "nat \<Rightarrow> ptr \<Rightarrow> variant" where
  "variant_from i p = \<lparr>index = i, pointer = p\<rparr>"

text \<open>Reading and calling a mutating member function through a \<open>State*\<close>.\<close>

definition deref :: "'s heap \<Rightarrow> ptr \<Rightarrow> 's option" where
  "deref h p =
     (case p of
        nullptr \<Rightarrow> None
      | Ptr a i \<Rightarrow>
          (case h a of
             None \<Rightarrow> None
           | Some M \<Rightarrow> if i < length (states M) then Some (states M ! i) else None))"

definition update_through :: "ptr \<Rightarrow> ('s \<Rightarrow> 's) \<Rightarrow> 's heap \<Rightarrow> 's heap option" where
  "update_through p f h =
     (case p of
        nullptr \<Rightarrow> None
      | Ptr a i \<Rightarrow>
          (case h a of
             None \<Rightarrow> None
           | Some M \<Rightarrow>
               if i < length (states M)
               then Some (h(a \<mapsto> M\<lparr>states := (states M)[i := f (states M ! i)]\<rparr>))
               else None))"

subsection \<open>TupleTools: \<open>runtime_get\<close>\<close>

text \<open>
  \<open>runtime_get(t, i)\<close> calls \<open>lookup_table[i]\<close>, which applies \<open>[](auto& element) { return
  &element; }\<close> to \<open>std::get<i>(t)\<close> and converts the pointer to the variant. The table has
  \<open>std::tuple_size_v\<close> entries; indexing it out of range is undefined (\<open>None\<close>). The tuple
  is named by the address of the machine that holds it.
\<close>

definition runtime_get :: "addr \<Rightarrow> 's list \<Rightarrow> nat \<Rightarrow> variant option" where
  "runtime_get t tuple i =
     (if i < length tuple then Some (variant_from i (Ptr t i)) else None)"

subsection \<open>Constructors and assignment\<close>

text \<open>\<open>StateMachine() : currentState(&std::get<0>(states))\<close>\<close>

definition StateMachine_default ::
  "('s, 'e) state_type list \<Rightarrow> addr \<Rightarrow> 's heap \<Rightarrow> 's heap option" where
  "StateMachine_default sts this h =
     (case those (map default_ctor sts) of
        None \<Rightarrow> None
      | Some [] \<Rightarrow> None
      | Some (s # ss) \<Rightarrow>
          Some (h(this \<mapsto> \<lparr>states = s # ss, currentState = variant_from 0 (Ptr this 0)\<rparr>)))"

text \<open>
  \<open>StateMachine(States... states_in) : states(std::move(states_in)...)
  { currentState = &std::get<0>(states); }\<close>
\<close>

definition StateMachine_states :: "'s list \<Rightarrow> addr \<Rightarrow> 's heap \<Rightarrow> 's heap option" where
  "StateMachine_states states_in this h =
     (case states_in of
        [] \<Rightarrow> None
      | s # ss \<Rightarrow>
          Some (h(this \<mapsto> \<lparr>states = s # ss, currentState = variant_from 0 (Ptr this 0)\<rparr>)))"

text \<open>
  \<open>StateMachine(const StateMachine& other) : states(other.states)
  { currentState = runtime_get(states, other.currentState.index()); }\<close>
\<close>

definition StateMachine_copy :: "addr \<Rightarrow> addr \<Rightarrow> 's heap \<Rightarrow> 's heap option" where
  "StateMachine_copy this other h =
     do {
       that \<leftarrow> h other;
       cur \<leftarrow> runtime_get this (states that) (index (currentState that));
       Some (h(this \<mapsto> \<lparr>states = states that, currentState = cur\<rparr>))
     }"

text \<open>Moving a tuple out: every element of the source is left moved-from.\<close>

definition move_out :: "('s, 'e) state_type list \<Rightarrow> 's list \<Rightarrow> 's list option" where
  "move_out sts tuple =
     (if length sts = length tuple
      then Some (map (\<lambda>(st, s). moved_from st s) (zip sts tuple))
      else None)"

text \<open>
  \<open>StateMachine(StateMachine&& other) : states(std::move(other.states))
  { currentState = runtime_get(states, other.currentState.index()); }\<close>
\<close>

definition StateMachine_move ::
  "('s, 'e) state_type list \<Rightarrow> addr \<Rightarrow> addr \<Rightarrow> 's heap \<Rightarrow> 's heap option" where
  "StateMachine_move sts this other h =
     do {
       that \<leftarrow> h other;
       left \<leftarrow> move_out sts (states that);
       let h1 = h(other \<mapsto> that\<lparr>states := left\<rparr>);
       cur \<leftarrow> runtime_get this (states that) (index (currentState that));
       Some (h1(this \<mapsto> \<lparr>states = states that, currentState = cur\<rparr>))
     }"

text \<open>
  \<open>StateMachine& operator=(const StateMachine& other)\<close>: the result is the new heap and
  the address of \<open>*this\<close>.
\<close>

definition copy_assign :: "addr \<Rightarrow> addr \<Rightarrow> 's heap \<Rightarrow> ('s heap \<times> addr) option" where
  "copy_assign this other h =
     do {
       T \<leftarrow> h this;
       if this \<noteq> other then
         do {
           that \<leftarrow> h other;
           cur \<leftarrow> runtime_get this (states that) (index (currentState that));
           Some (h(this \<mapsto> T\<lparr>states := states that, currentState := cur\<rparr>), this)
         }
       else Some (h, this)
     }"

text \<open>\<open>StateMachine& operator=(StateMachine&& other)\<close>\<close>

definition move_assign ::
  "('s, 'e) state_type list \<Rightarrow> addr \<Rightarrow> addr \<Rightarrow> 's heap \<Rightarrow> ('s heap \<times> addr) option" where
  "move_assign sts this other h =
     do {
       T \<leftarrow> h this;
       if this \<noteq> other then
         do {
           that \<leftarrow> h other;
           left \<leftarrow> move_out sts (states that);
           let h1 = h(other \<mapsto> that\<lparr>states := left\<rparr>);
           cur \<leftarrow> runtime_get this (states that) (index (currentState that));
           Some (h1(this \<mapsto> T\<lparr>states := states that, currentState := cur\<rparr>), this)
         }
       else Some (h, this)
     }"

subsection \<open>\<open>transitionTo\<close>\<close>

text \<open>
  \<open>State& state = std::get<State>(states); currentState = &state; return state;\<close>
  \<open>std::get<State>\<close> does not build unless \<open>State\<close> is one of the types of the tuple
  (\<open>None\<close>). The result is the new heap and the reference returned.
\<close>

definition transitionTo :: "addr \<Rightarrow> nat \<Rightarrow> 's heap \<Rightarrow> ('s heap \<times> ptr) option" where
  "transitionTo this State h =
     do {
       M \<leftarrow> h this;
       if State < length (states M) then
         let state = Ptr this State
         in Some (h(this \<mapsto> M\<lparr>currentState := variant_from State state\<rparr>), state)
       else None
     }"

subsection \<open>Executing actions\<close>

text \<open>
  Modelled from the spec: the helper of \<open>TransitionTo<Target>::execute\<close> (file
  \<open>fsm/actions/TransitionTo.hpp\<close>, not among the sources) for step (1). The spec (4.2):
  \<open>execute(machine, sourceState, event)\<close> must, in order, (1) invoke
  \<open>sourceState.onLeave(event)\<close> if such a hook exists for that event type on that state's
  type, silently skipped otherwise; (2) call the engine's transition operation to obtain a
  reference to the target state; (3) invoke \<open>target.onEnter(event)\<close> if such a hook exists
  for that event type, skipped otherwise. \<open>k\<close> is the static type of the state reference.
\<close>

definition leave ::
  "('s, 'e) state_type list \<Rightarrow> nat \<Rightarrow> ptr \<Rightarrow> 'e \<Rightarrow> 's heap \<Rightarrow> 's heap option" where
  "leave sts k state event h =
     (if k < length sts then
        (case onLeave (sts ! k) event of
           None \<Rightarrow> Some h
         | Some f \<Rightarrow> update_through state (f h) h)
      else None)"

text \<open>
  Modelled from the spec: the helper of \<open>TransitionTo<Target>::execute\<close> (file
  \<open>fsm/actions/TransitionTo.hpp\<close>) for step (3): invoke \<open>target.onEnter(event)\<close> if such a
  hook exists for that event type, skipped otherwise.
\<close>

definition enter ::
  "('s, 'e) state_type list \<Rightarrow> nat \<Rightarrow> ptr \<Rightarrow> 'e \<Rightarrow> 's heap \<Rightarrow> 's heap option" where
  "enter sts k state event h =
     (if k < length sts then
        (case onEnter (sts ! k) event of
           None \<Rightarrow> Some h
         | Some f \<Rightarrow> update_through state (f h) h)
      else None)"

text \<open>
  Modelled from the spec: \<open>TransitionTo<Target>::execute(machine, prevState, event)\<close> (file
  \<open>fsm/actions/TransitionTo.hpp\<close>): the leave hook, then the engine's \<open>transitionTo<Target>()\<close>,
  then the enter hook on the reference it returned.
\<close>

definition TransitionTo_execute ::
  "('s, 'e) state_type list \<Rightarrow> nat \<Rightarrow> addr \<Rightarrow> nat \<Rightarrow> ptr \<Rightarrow> 'e \<Rightarrow> 's heap \<Rightarrow> 's heap option" where
  "TransitionTo_execute sts Target machine k prevState event h =
     do {
       h1 \<leftarrow> leave sts k prevState event h;
       (h2, newState) \<leftarrow> transitionTo machine Target h1;
       enter sts Target newState event h2
     }"

text \<open>
  \<open>Nothing::execute(Machine&, State&, const Event&) { }\<close> and
  \<open>OneOf::execute\<close>: \<open>std::visit([&](auto& action) { action.execute(machine, state, event); },
  options)\<close>.
\<close>

fun execute ::
  "('s, 'e) state_type list \<Rightarrow> action \<Rightarrow> addr \<Rightarrow> nat \<Rightarrow> ptr \<Rightarrow> 'e \<Rightarrow> 's heap \<Rightarrow> 's heap option" where
  "execute sts Nothing machine k state event h = Some h"
| "execute sts (TransitionTo Target) machine k state event h =
     TransitionTo_execute sts Target machine k state event h"
| "execute sts (OneOf i a) machine k state event h = execute sts a machine k state event h"

subsection \<open>\<open>handle\<close> and \<open>handleBy\<close>\<close>

text \<open>
  \<open>std::visit(passEventToState, currentState)\<close> with \<open>passEventToState = [&machine, &event]
  (auto statePtr) { auto action = statePtr->handle(event); action.execute(machine, *statePtr,
  event); }\<close>. The index of the variant selects the state type, hence the overloads of
  \<open>handle\<close> and of the hooks.
\<close>

definition handleBy ::
  "('s, 'e) state_type list \<Rightarrow> 'e \<Rightarrow> addr \<Rightarrow> addr \<Rightarrow> 's heap \<Rightarrow> 's heap option" where
  "handleBy sts event machine this h =
     do {
       T \<leftarrow> h this;
       let k = index (currentState T);
       let statePtr = pointer (currentState T);
       if k < length sts then
         do {
           s \<leftarrow> deref h statePtr;
           action \<leftarrow> state_handle (sts ! k) s event;
           execute sts action machine k statePtr event h
         }
       else None
     }"

text \<open>\<open>void handle(const Event& event) { handleBy(event, *this); }\<close>\<close>

definition handle ::
  "('s, 'e) state_type list \<Rightarrow> 'e \<Rightarrow> addr \<Rightarrow> 's heap \<Rightarrow> 's heap option" where
  "handle sts event this h = handleBy sts event this this h"

section \<open>State-authoring helpers\<close>

text \<open>
  \<open>template <typename Action> struct ByDefault { template <typename Event> Action
  handle(const Event&) const { return Action{}; } };\<close>
\<close>

definition ByDefault_handle :: "action_type \<Rightarrow> 'e \<Rightarrow> action option" where
  "ByDefault_handle Action event = default_action Action"

text \<open>
  Modelled from the spec: \<open>On<Event, Action>\<close> (file \<open>fsm/actions/On.hpp\<close>, not among the
  sources), the spec's SingleEventHandler: supplies exactly \<open>handle(E) -> A\<close>. The event
  type is given by the predicate that recognises its values.
\<close>

definition On_handle :: "('e \<Rightarrow> bool) \<Rightarrow> action_type \<Rightarrow> 'e \<Rightarrow> action option" where
  "On_handle is_Event Action event = (if is_Event event then default_action Action else None)"

datatype 'e handler = ByDefault action_type | On "'e \<Rightarrow> bool" action_type

text \<open>
  Modelled from the spec: overload resolution over the handlers merged by \<open>Will\<close>: which
  overloads accept the event, and which of them are templates.
\<close>

fun viable :: "'e handler \<Rightarrow> 'e \<Rightarrow> bool" where
  "viable (ByDefault Action) event = True"
| "viable (On is_Event Action) event = is_Event event"

fun is_template :: "'e handler \<Rightarrow> bool" where
  "is_template (ByDefault Action) = True"
| "is_template (On is_Event Action) = False"

fun call_handler :: "'e handler \<Rightarrow> 'e \<Rightarrow> action option" where
  "call_handler (ByDefault Action) event = ByDefault_handle Action event"
| "call_handler (On is_Event Action) event = On_handle is_Event Action event"

text \<open>
  Modelled from the spec: \<open>Will<Handlers...>\<close> (file \<open>fsm/actions/Will.hpp\<close>, not among the
  sources), the spec's Merge: a single type whose overload set is the union of its
  fragments' overload sets. A call resolves to the one non-template overload for the event
  type when there is one, else to the one template; the call does not build when the choice
  is ambiguous or empty.
\<close>

definition Will :: "'e handler list \<Rightarrow> 'e \<Rightarrow> action option" where
  "Will Handlers event =
     (case filter (\<lambda>H. viable H event \<and> \<not> is_template H) Handlers of
        [H] \<Rightarrow> call_handler H event
      | _ # _ # _ \<Rightarrow> None
      | [] \<Rightarrow>
          (case filter (\<lambda>H. viable H event) Handlers of
             [H] \<Rightarrow> call_handler H event
           | _ \<Rightarrow> None))"

section \<open>The door example (\<open>example/main.cpp\<close>)\<close>

text \<open>
  \<open>using Door = StateMachine<ClosedState, OpenState, LockedState>\<close>: the state types are
  numbered 0, 1 and 2. \<open>uint32_t\<close> is \<open>32 word\<close>.
\<close>

datatype door_event = OpenEvent | CloseEvent | LockEvent "32 word" | UnlockEvent "32 word"

datatype door_state = ClosedState | OpenState | LockedState "32 word"

fun is_OpenEvent :: "door_event \<Rightarrow> bool" where
  "is_OpenEvent OpenEvent = True"
| "is_OpenEvent _ = False"

fun is_CloseEvent :: "door_event \<Rightarrow> bool" where
  "is_CloseEvent CloseEvent = True"
| "is_CloseEvent _ = False"

fun is_LockEvent :: "door_event \<Rightarrow> bool" where
  "is_LockEvent (LockEvent newKey) = True"
| "is_LockEvent _ = False"

fun is_UnlockEvent :: "door_event \<Rightarrow> bool" where
  "is_UnlockEvent (UnlockEvent key) = True"
| "is_UnlockEvent _ = False"

text \<open>
  \<open>struct ClosedState : public Will<ByDefault<Nothing>, On<LockEvent, TransitionTo<LockedState>>,
  On<OpenEvent, TransitionTo<OpenState>>> { };\<close>
\<close>

definition ClosedState_type :: "(door_state, door_event) state_type" where
  "ClosedState_type =
     \<lparr>state_handle =
        (\<lambda>s. Will [ByDefault NothingT, On is_LockEvent (TransitionToT 2),
                    On is_OpenEvent (TransitionToT 1)]),
      onLeave = (\<lambda>e. None),
      onEnter = (\<lambda>e. None),
      default_ctor = Some ClosedState,
      moved_from = (\<lambda>s. s)\<rparr>"

text \<open>
  \<open>struct OpenState : public Will<ByDefault<Nothing>, On<CloseEvent, TransitionTo<ClosedState>>>
  { };\<close>
\<close>

definition OpenState_type :: "(door_state, door_event) state_type" where
  "OpenState_type =
     \<lparr>state_handle = (\<lambda>s. Will [ByDefault NothingT, On is_CloseEvent (TransitionToT 0)]),
      onLeave = (\<lambda>e. None),
      onEnter = (\<lambda>e. None),
      default_ctor = Some OpenState,
      moved_from = (\<lambda>s. s)\<rparr>"

text \<open>\<open>void onEnter(const LockEvent& e) { key = e.newKey; }\<close>\<close>

fun LockedState_onEnter ::
  "door_event \<Rightarrow> (door_state heap \<Rightarrow> door_state \<Rightarrow> door_state) option" where
  "LockedState_onEnter (LockEvent newKey) =
     Some (\<lambda>h s. case s of LockedState key \<Rightarrow> LockedState newKey | _ \<Rightarrow> s)"
| "LockedState_onEnter _ = None"

text \<open>
  \<open>Maybe<TransitionTo<ClosedState>> handle(const UnlockEvent& e) const { if (e.key == key)
  { return TransitionTo<ClosedState>{}; } return Nothing{}; }\<close>, and \<open>using ByDefault::handle\<close>
  of the base \<open>ByDefault<Nothing>\<close> for every other event type.
\<close>

fun LockedState_handle :: "door_state \<Rightarrow> door_event \<Rightarrow> action option" where
  "LockedState_handle (LockedState key) (UnlockEvent k) =
     (if k = key then Maybe_ctor (TransitionToT 0) (TransitionToT 0) (TransitionTo 0)
      else Maybe_ctor (TransitionToT 0) NothingT Nothing)"
| "LockedState_handle s (UnlockEvent k) = None"
| "LockedState_handle s e = ByDefault_handle NothingT e"

text \<open>\<open>LockedState\<close> declares only \<open>LockedState(uint32_t key)\<close>: no default constructor.\<close>

definition LockedState_type :: "(door_state, door_event) state_type" where
  "LockedState_type =
     \<lparr>state_handle = LockedState_handle,
      onLeave = (\<lambda>e. None),
      onEnter = LockedState_onEnter,
      default_ctor = None,
      moved_from = (\<lambda>s. s)\<rparr>"

definition Door :: "(door_state, door_event) state_type list" where
  "Door = [ClosedState_type, OpenState_type, LockedState_type]"

text \<open>
  \<open>Door door{ClosedState{}, OpenState{}, LockedState{0x11}}; door.handle(LockEvent{1234});
  door.handle(UnlockEvent{2}); door.handle(UnlockEvent{1234});\<close> with \<open>door\<close> at address 0.
\<close>

definition main :: "door_state heap option" where
  "main =
     do {
       h0 \<leftarrow> StateMachine_states [ClosedState, OpenState, LockedState 0x11] 0 Map.empty;
       h1 \<leftarrow> handle Door (LockEvent 1234) 0 h0;
       h2 \<leftarrow> handle Door (UnlockEvent 2) 0 h1;
       handle Door (UnlockEvent 1234) 0 h2
     }"

text \<open>The heap that holds one door, at address 0, with the given key and current state.\<close>

definition door_heap :: "32 word \<Rightarrow> nat \<Rightarrow> door_state heap" where
  "door_heap key cur =
     [0 \<mapsto> \<lparr>states = [ClosedState, OpenState, LockedState key],
             currentState = \<lparr>index = cur, pointer = Ptr 0 cur\<rparr>\<rparr>]"

text \<open>A door object at address \<open>a\<close>, and a heap that holds two doors.\<close>

definition door_object :: "addr \<Rightarrow> 32 word \<Rightarrow> nat \<Rightarrow> door_state StateMachine" where
  "door_object a key cur =
     \<lparr>states = [ClosedState, OpenState, LockedState key],
      currentState = \<lparr>index = cur, pointer = Ptr a cur\<rparr>\<rparr>"

definition two_doors :: "door_state heap" where
  "two_doors = [0 \<mapsto> door_object 0 1234 2, 1 \<mapsto> door_object 1 7 0]"

section \<open>Properties of heaps and runs\<close>

text \<open>
  The current-state tag of the machine at address \<open>a\<close> refers to an element of that
  machine's own tuple, the one at the position the tag's index names.
\<close>

definition current_ok :: "addr \<Rightarrow> 's StateMachine \<Rightarrow> bool" where
  "current_ok a M \<longleftrightarrow>
     index (currentState M) < length (states M) \<and>
     pointer (currentState M) = Ptr a (index (currentState M))"

definition heap_ok :: "'s heap \<Rightarrow> bool" where
  "heap_ok h \<longleftrightarrow> (\<forall>a M. h a = Some M \<longrightarrow> current_ok a M)"

text \<open>The public operations of the engine, and running a sequence of them.\<close>

datatype ('s, 'e) operation =
    Construct addr "'s list"
  | DefaultConstruct addr
  | CopyConstruct addr addr
  | MoveConstruct addr addr
  | CopyAssign addr addr
  | MoveAssign addr addr
  | Handle addr 'e
  | TransitionToCall addr nat

fun perform ::
  "('s, 'e) state_type list \<Rightarrow> ('s, 'e) operation \<Rightarrow> 's heap \<Rightarrow> 's heap option" where
  "perform sts (Construct this states_in) h = StateMachine_states states_in this h"
| "perform sts (DefaultConstruct this) h = StateMachine_default sts this h"
| "perform sts (CopyConstruct this other) h = StateMachine_copy this other h"
| "perform sts (MoveConstruct this other) h = StateMachine_move sts this other h"
| "perform sts (CopyAssign this other) h = map_option fst (copy_assign this other h)"
| "perform sts (MoveAssign this other) h = map_option fst (move_assign sts this other h)"
| "perform sts (Handle this event) h = handle sts event this h"
| "perform sts (TransitionToCall this State) h = map_option fst (transitionTo this State h)"

fun run ::
  "('s, 'e) state_type list \<Rightarrow> ('s, 'e) operation list \<Rightarrow> 's heap \<Rightarrow> 's heap option" where
  "run sts [] h = Some h"
| "run sts (c # cs) h = (case perform sts c h of None \<Rightarrow> None | Some h' \<Rightarrow> run sts cs h')"

text \<open>Every transition an action may request names a state type of the machine.\<close>

fun targets_ok :: "nat \<Rightarrow> action \<Rightarrow> bool" where
  "targets_ok n Nothing = True"
| "targets_ok n (TransitionTo t) = (t < n)"
| "targets_ok n (OneOf i a) = targets_ok n a"

text \<open>The effect on a state of calling, in heap \<open>h\<close>, a hook that may not exist.\<close>

fun run_hook :: "('h \<Rightarrow> 's \<Rightarrow> 's) option \<Rightarrow> 'h \<Rightarrow> 's \<Rightarrow> 's" where
  "run_hook None h s = s"
| "run_hook (Some f) h s = f h s"

text \<open>
  A machine of two states that watch their machine: each state holds the position it last
  found current in the machine at address \<open>m\<close> (nothing at first), and both hooks store
  the position they find current when they are called. An event names the state to go to.
\<close>

definition current_index :: "addr \<Rightarrow> 's heap \<Rightarrow> nat option" where
  "current_index m h = map_option (\<lambda>M. index (currentState M)) (h m)"

definition watching_type :: "addr \<Rightarrow> (nat option, nat) state_type" where
  "watching_type m =
     \<lparr>state_handle = (\<lambda>s target. Some (TransitionTo target)),
      onLeave = (\<lambda>e. Some (\<lambda>h s. current_index m h)),
      onEnter = (\<lambda>e. Some (\<lambda>h s. current_index m h)),
      default_ctor = Some None,
      moved_from = (\<lambda>s. s)\<rparr>"

definition watching_heap :: "nat option list \<Rightarrow> nat \<Rightarrow> nat option heap" where
  "watching_heap seen cur =
     [0 \<mapsto> \<lparr>states = seen, currentState = \<lparr>index = cur, pointer = Ptr 0 cur\<rparr>\<rparr>]"

section \<open>Basic facts\<close>

lemma update_through_Ptr:
  "h a = Some M \<Longrightarrow> i < length (states M) \<Longrightarrow>
   update_through (Ptr a i) f h = Some (h(a \<mapsto> M\<lparr>states := (states M)[i := f (states M ! i)]\<rparr>))"
  by (simp add: update_through_def)

lemma update_through_SomeD:
  "update_through p f h = Some h' \<Longrightarrow>
   \<exists>a i M. p = Ptr a i \<and> h a = Some M \<and> i < length (states M) \<and>
     h' = h(a \<mapsto> M\<lparr>states := (states M)[i := f (states M ! i)]\<rparr>)"
  by (auto simp: update_through_def split: ptr.splits option.splits if_splits)

lemma transitionTo_eq:
  "h this = Some M \<Longrightarrow> State < length (states M) \<Longrightarrow>
   transitionTo this State h =
     Some (h(this \<mapsto> M\<lparr>currentState := \<lparr>index = State, pointer = Ptr this State\<rparr>\<rparr>), Ptr this State)"
  by (simp add: transitionTo_def variant_from_def Let_def)

lemma transitionTo_SomeD:
  "transitionTo this State h = Some (h', p) \<Longrightarrow>
   \<exists>M. h this = Some M \<and> State < length (states M) \<and> p = Ptr this State \<and>
     h' = h(this \<mapsto> M\<lparr>currentState := \<lparr>index = State, pointer = Ptr this State\<rparr>\<rparr>)"
  by (auto simp: transitionTo_def variant_from_def Let_def split: option.splits if_splits bind_splits)

lemma heap_ok_upd: "heap_ok h \<Longrightarrow> current_ok a M \<Longrightarrow> heap_ok (h(a \<mapsto> M))"
  by (simp add: heap_ok_def)

lemma heap_okD: "heap_ok h \<Longrightarrow> h a = Some M \<Longrightarrow> current_ok a M"
  by (simp add: heap_ok_def)

lemma update_through_ok:
  assumes "heap_ok h" "update_through p f h = Some h'"
  shows "heap_ok h'"
proof -
  from update_through_SomeD[OF assms(2)] obtain a i M where
    *: "p = Ptr a i" "h a = Some M" "i < length (states M)"
       "h' = h(a \<mapsto> M\<lparr>states := (states M)[i := f (states M ! i)]\<rparr>)" by blast
  from heap_okD[OF assms(1) *(2)] have "current_ok a (M\<lparr>states := (states M)[i := f (states M ! i)]\<rparr>)"
    by (simp add: current_ok_def)
  with assms(1) * show ?thesis by (simp add: heap_ok_upd)
qed

lemma transitionTo_ok:
  assumes "heap_ok h" "transitionTo this State h = Some (h', p)"
  shows "heap_ok h'"
proof -
  from transitionTo_SomeD[OF assms(2)] obtain M where
    *: "h this = Some M" "State < length (states M)"
       "h' = h(this \<mapsto> M\<lparr>currentState := \<lparr>index = State, pointer = Ptr this State\<rparr>\<rparr>)" by blast
  have "current_ok this (M\<lparr>currentState := \<lparr>index = State, pointer = Ptr this State\<rparr>\<rparr>)"
    using *(2) by (simp add: current_ok_def)
  with assms(1) * show ?thesis by (simp add: heap_ok_upd)
qed

lemma leave_ok: "heap_ok h \<Longrightarrow> leave sts k p e h = Some h' \<Longrightarrow> heap_ok h'"
  by (auto simp: leave_def split: if_splits option.splits dest: update_through_ok)

lemma enter_ok: "heap_ok h \<Longrightarrow> enter sts k p e h = Some h' \<Longrightarrow> heap_ok h'"
  by (auto simp: enter_def split: if_splits option.splits dest: update_through_ok)

lemma TransitionTo_execute_ok:
  "heap_ok h \<Longrightarrow> TransitionTo_execute sts t m k p e h = Some h' \<Longrightarrow> heap_ok h'"
  by (auto simp: TransitionTo_execute_def split: bind_splits)
     (blast dest: leave_ok transitionTo_ok enter_ok)

lemma execute_ok: "heap_ok h \<Longrightarrow> execute sts a m k p e h = Some h' \<Longrightarrow> heap_ok h'"
  by (induction a) (auto dest: TransitionTo_execute_ok)

lemma handleBy_ok: "heap_ok h \<Longrightarrow> handleBy sts e m this h = Some h' \<Longrightarrow> heap_ok h'"
  by (auto simp: handleBy_def Let_def split: bind_splits if_splits dest: execute_ok)

lemma handle_ok: "heap_ok h \<Longrightarrow> handle sts e this h = Some h' \<Longrightarrow> heap_ok h'"
  by (auto simp: handle_def dest: handleBy_ok)

lemma runtime_get_SomeD:
  "runtime_get t tuple i = Some v \<Longrightarrow> i < length tuple \<and> v = \<lparr>index = i, pointer = Ptr t i\<rparr>"
  by (auto simp: runtime_get_def variant_from_def split: if_splits)

lemma StateMachine_states_ok: "heap_ok h \<Longrightarrow> StateMachine_states ss this h = Some h' \<Longrightarrow> heap_ok h'"
  by (auto simp: StateMachine_states_def variant_from_def current_ok_def split: list.splits intro!: heap_ok_upd)

lemma StateMachine_default_ok: "heap_ok h \<Longrightarrow> StateMachine_default sts this h = Some h' \<Longrightarrow> heap_ok h'"
  by (auto simp: StateMachine_default_def variant_from_def current_ok_def split: list.splits option.splits intro!: heap_ok_upd)

lemma StateMachine_copy_ok: "heap_ok h \<Longrightarrow> StateMachine_copy this other h = Some h' \<Longrightarrow> heap_ok h'"
  by (auto simp: StateMachine_copy_def current_ok_def split: bind_splits dest!: runtime_get_SomeD intro!: heap_ok_upd)

lemma move_out_length: "move_out sts tuple = Some left \<Longrightarrow> length left = length tuple"
  by (auto simp: move_out_def split: if_splits)

lemma StateMachine_move_ok:
  assumes "heap_ok h" "StateMachine_move sts this other h = Some h'"
  shows "heap_ok h'"
proof -
  from assms(2) obtain M left cur where
    *: "h other = Some M" "move_out sts (states M) = Some left"
       "runtime_get this (states M) (index (currentState M)) = Some cur"
       "h' = (h(other \<mapsto> M\<lparr>states := left\<rparr>))(this \<mapsto> \<lparr>states = states M, currentState = cur\<rparr>)"
    by (auto simp: StateMachine_move_def Let_def split: bind_splits)
  from heap_okD[OF assms(1) *(1)] move_out_length[OF *(2)]
  have 1: "current_ok other (M\<lparr>states := left\<rparr>)" by (simp add: current_ok_def)
  from runtime_get_SomeD[OF *(3)]
  have 2: "current_ok this \<lparr>states = states M, currentState = cur\<rparr>" by (simp add: current_ok_def)
  show ?thesis unfolding *(4) by (intro heap_ok_upd assms(1) 1 2)
qed

lemma copy_assign_ok: "heap_ok h \<Longrightarrow> copy_assign this other h = Some (h', r) \<Longrightarrow> heap_ok h'"
  by (auto simp: copy_assign_def current_ok_def split: bind_splits if_splits dest!: runtime_get_SomeD intro!: heap_ok_upd)

lemma move_assign_ok:
  assumes "heap_ok h" "move_assign sts this other h = Some (h', r)"
  shows "heap_ok h'"
proof (cases "this = other")
  case True
  with assms show ?thesis by (auto simp: move_assign_def split: bind_splits)
next
  case False
  with assms(2) obtain T M left cur where
    *: "h this = Some T" "h other = Some M" "move_out sts (states M) = Some left"
       "runtime_get this (states M) (index (currentState M)) = Some cur"
       "h' = (h(other \<mapsto> M\<lparr>states := left\<rparr>))(this \<mapsto> T\<lparr>states := states M, currentState := cur\<rparr>)"
    by (auto simp: move_assign_def Let_def split: bind_splits)
  from heap_okD[OF assms(1) *(2)] move_out_length[OF *(3)]
  have 1: "current_ok other (M\<lparr>states := left\<rparr>)" by (simp add: current_ok_def)
  from runtime_get_SomeD[OF *(4)]
  have 2: "current_ok this (T\<lparr>states := states M, currentState := cur\<rparr>)" by (simp add: current_ok_def)
  show ?thesis unfolding *(5) by (intro heap_ok_upd assms(1) 1 2)
qed

lemma perform_ok: "heap_ok h \<Longrightarrow> perform sts c h = Some h' \<Longrightarrow> heap_ok h'"
  by (cases c)
     (auto dest: StateMachine_states_ok StateMachine_default_ok StateMachine_copy_ok
        StateMachine_move_ok copy_assign_ok move_assign_ok handle_ok transitionTo_ok)

lemma run_ok: "heap_ok h \<Longrightarrow> run sts cs h = Some h' \<Longrightarrow> heap_ok h'"
  by (induction cs arbitrary: h) (auto split: option.splits dest: perform_ok)

lemmas door_defs = Door_def ClosedState_type_def OpenState_type_def LockedState_type_def
  handle_def handleBy_def deref_def Will_def ByDefault_handle_def On_handle_def
  TransitionTo_execute_def leave_def enter_def transitionTo_def update_through_def
  variant_from_def Maybe_ctor_def OneOf_ctor.simps StateMachine_states_def door_heap_def Let_def

lemma deref_upd_current:
  "h a = Some M \<Longrightarrow> deref (h(a \<mapsto> M\<lparr>currentState := c\<rparr>)) p = deref h p"
  by (cases p) (auto simp: deref_def)

lemma those_map_SomeD:
  "those (map f xs) = Some ys \<Longrightarrow>
   length ys = length xs \<and> (\<forall>i<length xs. f (xs ! i) = Some (ys ! i))"
proof (induction xs arbitrary: ys)
  case Nil
  then show ?case by simp
next
  case (Cons x xs)
  from Cons.prems obtain y zs where
    *: "f x = Some y" "those (map f xs) = Some zs" "ys = y # zs"
    by (auto split: option.splits)
  from Cons.IH[OF *(2)] * show ?case
    by (auto simp: nth_Cons split: nat.splits)
qed

lemma default_action_has_type: "default_action Action = Some a \<Longrightarrow> has_type a Action"
  by (cases Action) auto

lemma filter_singletonD:
  assumes "filter P xs = [i]"
  shows "i \<in> set xs \<and> P i \<and> (\<forall>j\<in>set xs. P j \<longrightarrow> j = i)"
proof -
  have "set (filter P xs) = {i}" using assms by simp
  then show ?thesis by auto
qed

lemma filter_emptyD: "filter P xs = [] \<Longrightarrow> x \<in> set xs \<Longrightarrow> \<not> P x"
  by (simp add: filter_empty_conv)

lemma OneOf_ctor_cases:
  assumes "OneOf_ctor Actions T arg = Some a"
  shows "(\<exists>i. filter (\<lambda>i. Actions ! i = T) [0..<length Actions] = [i] \<and> a = OneOf i arg)
       \<or> (\<exists>i Bs held. filter (\<lambda>i. Actions ! i = T) [0..<length Actions] = []
             \<and> filter (\<lambda>i. is_OneOfT (Actions ! i)) [0..<length Actions] = [i]
             \<and> Actions ! i = OneOfT Bs \<and> OneOf_ctor Bs T arg = Some held \<and> a = OneOf i held)"
  using assms
  by (subst (asm) OneOf_ctor.simps) (auto split: list.splits action_type.splits)

lemma OneOf_ctor_SomeD:
  assumes "OneOf_ctor Actions T arg = Some a"
  shows "\<exists>i held. a = OneOf i held \<and> i < length Actions
           \<and> ((Actions ! i = T \<and> held = arg
                 \<and> (\<forall>j<length Actions. Actions ! j = T \<longrightarrow> j = i))
              \<or> (\<exists>Bs. Actions ! i = OneOfT Bs \<and> OneOf_ctor Bs T arg = Some held
                    \<and> (\<forall>j<length Actions. Actions ! j \<noteq> T)
                    \<and> (\<forall>j<length Actions. is_OneOfT (Actions ! j) \<longrightarrow> j = i)))"
  using OneOf_ctor_cases[OF assms]
proof (elim disjE exE conjE)
  fix i
  assume f: "filter (\<lambda>i. Actions ! i = T) [0..<length Actions] = [i]" and a: "a = OneOf i arg"
  from filter_singletonD[OF f] a show ?thesis by auto
next
  fix i Bs held
  assume e: "filter (\<lambda>i. Actions ! i = T) [0..<length Actions] = []"
    and f: "filter (\<lambda>i. is_OneOfT (Actions ! i)) [0..<length Actions] = [i]"
    and B: "Actions ! i = OneOfT Bs" and c: "OneOf_ctor Bs T arg = Some held"
    and a: "a = OneOf i held"
  from filter_emptyD[OF e] have "\<forall>j<length Actions. Actions ! j \<noteq> T" by auto
  with filter_singletonD[OF f] B c a show ?thesis by auto
qed

lemma OneOf_ctor_has_type:
  "OneOf_ctor Actions T arg = Some a \<Longrightarrow> has_type arg T \<Longrightarrow> has_type a (OneOfT Actions)"
proof (induction Actions T arg arbitrary: a rule: OneOf_ctor.induct)
  case (1 Actions T arg)
  from OneOf_ctor_cases[OF "1.prems"(1)] show ?case
  proof (elim disjE exE conjE)
    fix i
    assume f: "filter (\<lambda>i. Actions ! i = T) [0..<length Actions] = [i]" and a: "a = OneOf i arg"
    from filter_singletonD[OF f] a "1.prems"(2) show ?thesis by auto
  next
    fix i Bs held
    assume e: "filter (\<lambda>i. Actions ! i = T) [0..<length Actions] = []"
      and f: "filter (\<lambda>i. is_OneOfT (Actions ! i)) [0..<length Actions] = [i]"
      and B: "Actions ! i = OneOfT Bs" and c: "OneOf_ctor Bs T arg = Some held"
      and a: "a = OneOf i held"
    from "1.IH"[OF e f refl B c "1.prems"(2)] have "has_type held (OneOfT Bs)" .
    with filter_singletonD[OF f] B a show ?thesis by auto
  qed
qed

lemma OneOf_ctor_execute:
  "OneOf_ctor Actions T arg = Some a \<Longrightarrow>
   execute sts a machine k state event h = execute sts arg machine k state event h"
proof (induction Actions T arg arbitrary: a rule: OneOf_ctor.induct)
  case (1 Actions T arg)
  from OneOf_ctor_cases[OF "1.prems"] show ?case
  proof (elim disjE exE conjE)
    fix i
    assume "a = OneOf i arg"
    then show ?thesis by simp
  next
    fix i Bs held
    assume e: "filter (\<lambda>i. Actions ! i = T) [0..<length Actions] = []"
      and f: "filter (\<lambda>i. is_OneOfT (Actions ! i)) [0..<length Actions] = [i]"
      and B: "Actions ! i = OneOfT Bs" and c: "OneOf_ctor Bs T arg = Some held"
      and a: "a = OneOf i held"
    from "1.IH"[OF e f refl B c] a show ?thesis by simp
  qed
qed

lemma has_type_OneOfTD:
  "has_type a (OneOfT Actions) \<Longrightarrow>
   \<exists>i held. a = OneOf i held \<and> i < length Actions \<and> has_type held (Actions ! i)"
  by (cases a) simp_all

lemma StateMachine_update_commute:
  "M\<lparr>currentState := c, states := s\<rparr> = M\<lparr>states := s, currentState := c\<rparr>"
  by (cases M) simp

lemma leave_eq:
  assumes "h a = Some M" "k < length sts" "j < length (states M)"
  shows "leave sts k (Ptr a j) e h =
           Some (h(a \<mapsto> M\<lparr>states := (states M)[j := run_hook (onLeave (sts ! k) e) h (states M ! j)]\<rparr>))"
proof (cases "onLeave (sts ! k) e")
  case None
  have "h(a \<mapsto> M) = h" using assms(1) by (simp add: fun_upd_idem)
  with None assms show ?thesis by (simp add: leave_def)
next
  case (Some f)
  with assms show ?thesis by (simp add: leave_def update_through_Ptr)
qed

lemma enter_eq:
  assumes "h a = Some M" "k < length sts" "j < length (states M)"
  shows "enter sts k (Ptr a j) e h =
           Some (h(a \<mapsto> M\<lparr>states := (states M)[j := run_hook (onEnter (sts ! k) e) h (states M ! j)]\<rparr>))"
proof (cases "onEnter (sts ! k) e")
  case None
  have "h(a \<mapsto> M) = h" using assms(1) by (simp add: fun_upd_idem)
  with None assms show ?thesis by (simp add: enter_def)
next
  case (Some f)
  with assms show ?thesis by (simp add: enter_def update_through_Ptr)
qed

lemma TransitionTo_execute_eq:
  assumes "h m = Some M" "k < length sts" "j < length (states M)"
    "Target < length sts" "Target < length (states M)"
    "s1 = (states M)[j := run_hook (onLeave (sts ! k) e) h (states M ! j)]"
    "s2 = s1[Target := run_hook (onEnter (sts ! Target) e)
            (h(m \<mapsto> M\<lparr>states := s1,
                     currentState := \<lparr>index = Target, pointer = Ptr m Target\<rparr>\<rparr>)) (s1 ! Target)]"
  shows "TransitionTo_execute sts Target m k (Ptr m j) e h =
           Some (h(m \<mapsto> M\<lparr>states := s2,
                             currentState := \<lparr>index = Target, pointer = Ptr m Target\<rparr>\<rparr>))"
proof -
  let ?h1 = "h(m \<mapsto> M\<lparr>states := s1\<rparr>)"
  let ?c = "\<lparr>index = Target, pointer = Ptr m Target\<rparr>"
  let ?h2 = "h(m \<mapsto> M\<lparr>states := s1, currentState := ?c\<rparr>)"
  have 1: "leave sts k (Ptr m j) e h = Some ?h1"
    using leave_eq[where h = h and a = m and M = M and k = k and sts = sts and j = j and e = e]
      assms(1,2,3,6) by simp
  have 2: "transitionTo m Target ?h1 = Some (?h2, Ptr m Target)"
    using transitionTo_eq[of ?h1 m "M\<lparr>states := s1\<rparr>" Target] assms(5,6) by simp
  have 3: "enter sts Target (Ptr m Target) e ?h2 =
             Some (h(m \<mapsto> M\<lparr>states := s2, currentState := ?c\<rparr>))"
    using enter_eq[of ?h2 m "M\<lparr>states := s1, currentState := ?c\<rparr>" Target sts Target e]
      assms(4,5,6,7) by (simp add: StateMachine_update_commute)
  show ?thesis by (simp add: TransitionTo_execute_def 1 2 3)
qed

lemma update_through_frame:
  "update_through (Ptr a i) f h = Some h' \<Longrightarrow> b \<noteq> a \<Longrightarrow> h' b = h b"
  by (auto dest!: update_through_SomeD)

lemma leave_frame: "leave sts k (Ptr a i) e h = Some h' \<Longrightarrow> b \<noteq> a \<Longrightarrow> h' b = h b"
  by (auto simp: leave_def split: if_splits option.splits dest: update_through_frame)

lemma enter_frame: "enter sts k (Ptr a i) e h = Some h' \<Longrightarrow> b \<noteq> a \<Longrightarrow> h' b = h b"
  by (auto simp: enter_def split: if_splits option.splits dest: update_through_frame)

lemma transitionTo_frame:
  "transitionTo a t h = Some (h', p) \<Longrightarrow> (b \<noteq> a \<longrightarrow> h' b = h b) \<and> p = Ptr a t"
  by (auto dest!: transitionTo_SomeD)

lemma TransitionTo_execute_frame:
  assumes "TransitionTo_execute sts t m k (Ptr m j) e h = Some h'" "b \<noteq> m"
  shows "h' b = h b"
proof -
  from assms(1) obtain h1 h2 p where
    *: "leave sts k (Ptr m j) e h = Some h1" "transitionTo m t h1 = Some (h2, p)"
       "enter sts t p e h2 = Some h'"
    by (auto simp: TransitionTo_execute_def split: bind_splits)
  from transitionTo_frame[OF *(2)] have p: "p = Ptr m t" and 2: "h2 b = h1 b"
    using assms(2) by simp_all
  from leave_frame[OF *(1) assms(2)] have 1: "h1 b = h b" .
  from enter_frame[OF *(3)[unfolded p] assms(2)] have 3: "h' b = h2 b" .
  from 1 2 3 show ?thesis by simp
qed

lemma execute_frame:
  "execute sts a m k (Ptr m j) e h = Some h' \<Longrightarrow> b \<noteq> m \<Longrightarrow> h' b = h b"
  by (induction a) (auto dest: TransitionTo_execute_frame)

lemma handle_frame:
  assumes "h this = Some T" "current_ok this T" "handle sts e this h = Some h'" "b \<noteq> this"
  shows "h' b = h b"
proof -
  from assms(2) have p: "pointer (currentState T) = Ptr this (index (currentState T))"
    by (simp add: current_ok_def)
  from assms(1,3) p obtain a where
    "execute sts a this (index (currentState T)) (Ptr this (index (currentState T))) e h = Some h'"
    by (auto simp: handle_def handleBy_def Let_def split: bind_splits if_splits)
  from execute_frame[OF this assms(4)] show ?thesis .
qed

lemma runtime_get_eq:
  "i < length tuple \<Longrightarrow> runtime_get t tuple i = Some \<lparr>index = i, pointer = Ptr t i\<rparr>"
  by (simp add: runtime_get_def variant_from_def)

lemma StateMachine_copy_eq:
  assumes "h other = Some M" "index (currentState M) = i" "i < length (states M)"
  shows "StateMachine_copy this other h =
           Some (h(this \<mapsto> \<lparr>states = states M,
                              currentState = \<lparr>index = i, pointer = Ptr this i\<rparr>\<rparr>))"
  using assms by (simp add: StateMachine_copy_def runtime_get_eq)

lemma execute_returns:
  assumes "h m = Some M" "k < length sts" "j < length (states M)"
    "length sts \<le> length (states M)" "targets_ok (length sts) a"
  shows "\<exists>h'. execute sts a m k (Ptr m j) e h = Some h'"
  using assms(5)
proof (induction a)
  case Nothing
  show ?case by simp
next
  case (TransitionTo t)
  then have "t < length sts" "t < length (states M)" using assms(4) by simp_all
  from TransitionTo_execute_eq[where h = h and m = m and M = M and k = k and sts = sts and j = j
      and Target = t and e = e, OF assms(1,2,3) this refl refl]
  show ?case by simp
next
  case (OneOf i a)
  then show ?case by simp
qed

lemma handle_returns:
  assumes "h this = Some M" "current_ok this M" "length sts = length (states M)"
    "state_handle (sts ! index (currentState M)) (states M ! index (currentState M)) e = Some a"
    "targets_ok (length sts) a"
  shows "\<exists>h'. handle sts e this h = Some h'"
proof -
  let ?k = "index (currentState M)"
  from assms(2) have k: "?k < length (states M)" "pointer (currentState M) = Ptr this ?k"
    by (simp_all add: current_ok_def)
  from execute_returns[where h = h and m = this and M = M and k = ?k and sts = sts and j = ?k
      and a = a and e = e] assms k
  obtain h' where "execute sts a this ?k (Ptr this ?k) e h = Some h'" by auto
  with assms k show ?thesis by (simp add: handle_def handleBy_def deref_def)
qed

lemma current_ok_unique:
  assumes "current_ok a M"
  shows "\<exists>!i. i < length (states M) \<and> currentState M = \<lparr>index = i, pointer = Ptr a i\<rparr>"
proof
  show "index (currentState M) < length (states M) \<and>
        currentState M = \<lparr>index = index (currentState M), pointer = Ptr a (index (currentState M))\<rparr>"
    using assms by (simp add: current_ok_def)
next
  fix i
  assume "i < length (states M) \<and> currentState M = \<lparr>index = i, pointer = Ptr a i\<rparr>"
  then have "index (currentState M) = i" by simp
  then show "i = index (currentState M)" by simp
qed

section \<open>The claims\<close>

text \<open>
  C5. For a machine and a state type \<open>State\<close> of its type list, \<open>transitionTo<State>()\<close> sets
  the current-state reference to the machine's own instance of \<open>State\<close> and returns a
  reference to that instance; it takes no state type descriptions, so it calls no hook, and
  every state instance of every machine reads as before.
\<close>

theorem transitionTo_bookkeeping:
  assumes "h this = Some M" and "State < length (states M)"
  shows "transitionTo this State h =
           Some (h(this \<mapsto> M\<lparr>currentState := \<lparr>index = State, pointer = Ptr this State\<rparr>\<rparr>),
                 Ptr this State)
         \<and> deref h (Ptr this State) = Some (states M ! State)
         \<and> (\<forall>h' r p. transitionTo this State h = Some (h', r) \<longrightarrow> deref h' p = deref h p)"
proof (intro conjI allI impI)
  show "transitionTo this State h =
          Some (h(this \<mapsto> M\<lparr>currentState := \<lparr>index = State, pointer = Ptr this State\<rparr>\<rparr>),
                Ptr this State)"
    using assms by (rule transitionTo_eq)
  show "deref h (Ptr this State) = Some (states M ! State)"
    using assms by (simp add: deref_def)
next
  fix h' r p
  assume "transitionTo this State h = Some (h', r)"
  with transitionTo_eq[of h this M State] assms
  have "h' = h(this \<mapsto> M\<lparr>currentState := \<lparr>index = State, pointer = Ptr this State\<rparr>\<rparr>)"
    by simp
  then show "deref h' p = deref h p"
    using assms(1) by (simp add: deref_upd_current)
qed

theorem transitionTo_bookkeeping_witness:
  "transitionTo 0 2 (door_heap 0x11 0) = Some (door_heap 0x11 2, Ptr 0 2)
   \<and> deref (door_heap 0x11 0) (Ptr 0 2) = Some (LockedState 0x11)
   \<and> deref (door_heap 0x11 2) (Ptr 0 2) = Some (LockedState 0x11)"
  using transitionTo_bookkeeping [of "door_heap 0x11 0" 0
      "\<lparr>states = [ClosedState, OpenState, LockedState 0x11],
        currentState = \<lparr>index = 0, pointer = Ptr 0 0\<rparr>\<rparr>" 2]
  by (simp add: door_heap_def deref_def)

text \<open>
  C6. When the handler of the current state returns \<open>Nothing\<close> for an event, \<open>handle(event)\<close>
  returns and leaves the whole heap as it was: the same current state and the same data in
  every state instance.
\<close>

theorem handle_Nothing_unchanged:
  assumes "h this = Some M"
    and "index (currentState M) < length sts"
    and "deref h (pointer (currentState M)) = Some s"
    and "state_handle (sts ! index (currentState M)) s event = Some Nothing"
  shows "handle sts event this h = Some h"
  using assms by (simp add: handle_def handleBy_def)

theorem handle_Nothing_unchanged_witness:
  "state_handle (Door ! 0) ClosedState CloseEvent = Some Nothing
   \<and> handle Door CloseEvent 0 (door_heap 0x11 0) = Some (door_heap 0x11 0)"
  using handle_Nothing_unchanged [of "door_heap 0x11 0" 0
      "\<lparr>states = [ClosedState, OpenState, LockedState 0x11],
        currentState = \<lparr>index = 0, pointer = Ptr 0 0\<rparr>\<rparr>" Door ClosedState CloseEvent]
  by (simp add: door_heap_def deref_def Door_def ClosedState_type_def Will_def
      ByDefault_handle_def)

text \<open>
  C10. Copy-assigning or move-assigning a machine to itself changes neither its state
  instances nor its current-state reference, and returns a reference to the machine.
\<close>

theorem self_assignment_noop:
  assumes "h this = Some M"
  shows "copy_assign this this h = Some (h, this) \<and> move_assign sts this this h = Some (h, this)"
  using assms by (simp add: copy_assign_def move_assign_def)

theorem self_assignment_noop_witness:
  "copy_assign 0 0 (door_heap 1234 2) = Some (door_heap 1234 2, 0)
   \<and> move_assign Door 0 0 (door_heap 1234 2) = Some (door_heap 1234 2, 0)"
  using self_assignment_noop [of "door_heap 1234 2" 0
      "\<lparr>states = [ClosedState, OpenState, LockedState 1234],
        currentState = \<lparr>index = 2, pointer = Ptr 0 2\<rparr>\<rparr>" Door]
  by (simp add: door_heap_def)

text \<open>
  C4. For a machine type with at least one state type, the constructor that takes one
  instance per state type stores the instances it is given, and the default constructor
  (when every state type has a default constructor) stores the default value of each state
  type; in both the current state is the machine's own instance of the first state type.
\<close>

theorem constructors_start_in_first_state:
  "(states_in \<noteq> [] \<longrightarrow>
      StateMachine_states states_in this h =
        Some (h(this \<mapsto> \<lparr>states = states_in,
                           currentState = \<lparr>index = 0, pointer = Ptr this 0\<rparr>\<rparr>)))
   \<and> (sts \<noteq> [] \<and> those (map default_ctor sts) = Some defaults \<longrightarrow>
      StateMachine_default sts this h =
        Some (h(this \<mapsto> \<lparr>states = defaults,
                           currentState = \<lparr>index = 0, pointer = Ptr this 0\<rparr>\<rparr>))
      \<and> length defaults = length sts
      \<and> (\<forall>i<length sts. default_ctor (sts ! i) = Some (defaults ! i)))"
proof (intro conjI impI)
  assume "states_in \<noteq> []"
  then show "StateMachine_states states_in this h =
        Some (h(this \<mapsto> \<lparr>states = states_in,
                           currentState = \<lparr>index = 0, pointer = Ptr this 0\<rparr>\<rparr>))"
    by (cases states_in) (simp_all add: StateMachine_states_def variant_from_def)
next
  assume a: "sts \<noteq> [] \<and> those (map default_ctor sts) = Some defaults"
  then have d: "length defaults = length sts"
      "\<forall>i<length sts. default_ctor (sts ! i) = Some (defaults ! i)"
    using those_map_SomeD[of default_ctor sts defaults] by simp_all
  show "length defaults = length sts" by (rule d)
  show "\<forall>i<length sts. default_ctor (sts ! i) = Some (defaults ! i)" by (rule d)
  from a d(1) have "defaults \<noteq> []" by auto
  then show "StateMachine_default sts this h =
        Some (h(this \<mapsto> \<lparr>states = defaults,
                           currentState = \<lparr>index = 0, pointer = Ptr this 0\<rparr>\<rparr>))"
    using a by (cases defaults) (simp_all add: StateMachine_default_def variant_from_def)
qed

theorem constructors_start_in_first_state_witness:
  "StateMachine_states [ClosedState, OpenState, LockedState 0x11] 0 Map.empty
     = Some (door_heap 0x11 0)
   \<and> StateMachine_default [ClosedState_type, OpenState_type] 0 Map.empty
     = Some [0 \<mapsto> \<lparr>states = [ClosedState, OpenState],
                     currentState = \<lparr>index = 0, pointer = Ptr 0 0\<rparr>\<rparr>]"
  using constructors_start_in_first_state
    [of "[ClosedState, OpenState, LockedState 0x11]" 0 Map.empty
        "[ClosedState_type, OpenState_type]" "[ClosedState, OpenState]"]
  by (simp add: door_heap_def ClosedState_type_def OpenState_type_def)

text \<open>
  C9. \<open>ByDefault<Action>::handle\<close> returns the value-initialised \<open>Action\<close> for every event
  of every event type; the result does not depend on the event, and no state is read or
  written. A state that pulls it in with \<open>using ByDefault::handle\<close> (\<open>LockedState\<close>) answers
  with it every event type that it does not overload itself.
\<close>

theorem ByDefault_handle_fixed_action:
  "ByDefault_handle Action e = default_action Action
   \<and> ByDefault_handle Action e = ByDefault_handle Action e'
   \<and> ByDefault_handle NothingT e = Some Nothing
   \<and> ByDefault_handle (TransitionToT t) e = Some (TransitionTo t)
   \<and> (ByDefault_handle Action e = Some a \<longrightarrow> has_type a Action)
   \<and> (\<not> is_UnlockEvent ev \<longrightarrow> LockedState_handle s ev = ByDefault_handle NothingT ev)"
proof (intro conjI impI)
  assume "\<not> is_UnlockEvent ev"
  then show "LockedState_handle s ev = ByDefault_handle NothingT ev"
    by (cases ev; cases s) simp_all
qed (simp_all add: ByDefault_handle_def default_action_has_type)

theorem ByDefault_handle_fixed_action_witness:
  "ByDefault_handle (TransitionToT 1) CloseEvent = Some (TransitionTo 1)
   \<and> has_type (TransitionTo 1) (TransitionToT 1)
   \<and> LockedState_handle (LockedState 7) (LockEvent 9) = Some Nothing"
  using ByDefault_handle_fixed_action
    [of "TransitionToT 1" CloseEvent CloseEvent 1 "TransitionTo 1" "LockEvent 9" "LockedState 7"]
  by (simp add: ByDefault_handle_def)

text \<open>
  C8. A \<open>OneOf<Actions...>\<close> value holds exactly one alternative, of the type at the index
  it holds, and its \<open>execute\<close> is the \<open>execute\<close> of that alternative on the same arguments.
  The alternative is fixed at construction from the argument: the argument itself at the
  one alternative of the argument's type, or else the one \<open>OneOf\<close> alternative built from
  the argument; either way executing the new value is executing the argument.
  \<open>Maybe<Action>\<close> is \<open>OneOf<Action, Nothing>\<close>: it holds an \<open>Action\<close>, or it holds \<open>Nothing\<close>
  and executing it does nothing.
\<close>

theorem OneOf_executes_held_alternative:
  "(has_type b (OneOfT Actions) \<longrightarrow>
      (\<exists>i held. b = OneOf i held \<and> i < length Actions \<and> has_type held (Actions ! i)
         \<and> (\<forall>i' held'. b = OneOf i' held' \<longrightarrow> i' = i \<and> held' = held)
         \<and> execute sts b machine k state event h = execute sts held machine k state event h))
   \<and> execute sts (OneOf i b) machine k state event h = execute sts b machine k state event h
   \<and> (OneOf_ctor Actions T arg = Some a \<longrightarrow>
        (\<exists>i held. a = OneOf i held \<and> i < length Actions
           \<and> ((Actions ! i = T \<and> held = arg
                 \<and> (\<forall>j<length Actions. Actions ! j = T \<longrightarrow> j = i))
              \<or> (\<exists>Bs. Actions ! i = OneOfT Bs \<and> OneOf_ctor Bs T arg = Some held
                    \<and> (\<forall>j<length Actions. Actions ! j \<noteq> T)
                    \<and> (\<forall>j<length Actions. is_OneOfT (Actions ! j) \<longrightarrow> j = i))))
        \<and> (has_type arg T \<longrightarrow> has_type a (OneOfT Actions))
        \<and> execute sts a machine k state event h = execute sts arg machine k state event h)
   \<and> Maybe Action = OneOfT [Action, NothingT]
   \<and> Maybe_ctor Action T arg = OneOf_ctor [Action, NothingT] T arg
   \<and> (Maybe_ctor Action T arg = Some a \<and> has_type arg T \<longrightarrow>
        has_type a (Maybe Action)
        \<and> execute sts a machine k state event h = execute sts arg machine k state event h
        \<and> (\<exists>i held. a = OneOf i held
              \<and> ((i = 0 \<and> has_type held Action)
                 \<or> (i = 1 \<and> held = Nothing
                      \<and> execute sts a machine k state event h = Some h))))"
proof (intro conjI impI)
  assume "has_type b (OneOfT Actions)"
  from has_type_OneOfTD[OF this] obtain i held where
    *: "b = OneOf i held" "i < length Actions" "has_type held (Actions ! i)" by blast
  then show "\<exists>i held. b = OneOf i held \<and> i < length Actions \<and> has_type held (Actions ! i)
         \<and> (\<forall>i' held'. b = OneOf i' held' \<longrightarrow> i' = i \<and> held' = held)
         \<and> execute sts b machine k state event h = execute sts held machine k state event h"
    by auto
next
  show "execute sts (OneOf i b) machine k state event h = execute sts b machine k state event h"
    by simp
  show "Maybe Action = OneOfT [Action, NothingT]" by (simp add: Maybe_def)
  show "Maybe_ctor Action T arg = OneOf_ctor [Action, NothingT] T arg"
    by (simp add: Maybe_ctor_def)
next
  assume c: "OneOf_ctor Actions T arg = Some a"
  show "\<exists>i held. a = OneOf i held \<and> i < length Actions
           \<and> ((Actions ! i = T \<and> held = arg
                 \<and> (\<forall>j<length Actions. Actions ! j = T \<longrightarrow> j = i))
              \<or> (\<exists>Bs. Actions ! i = OneOfT Bs \<and> OneOf_ctor Bs T arg = Some held
                    \<and> (\<forall>j<length Actions. Actions ! j \<noteq> T)
                    \<and> (\<forall>j<length Actions. is_OneOfT (Actions ! j) \<longrightarrow> j = i)))"
    using c by (rule OneOf_ctor_SomeD)
  show "execute sts a machine k state event h = execute sts arg machine k state event h"
    using c by (rule OneOf_ctor_execute)
  assume "has_type arg T"
  with c show "has_type a (OneOfT Actions)" by (rule OneOf_ctor_has_type)
next
  assume m: "Maybe_ctor Action T arg = Some a \<and> has_type arg T"
  then have c: "OneOf_ctor [Action, NothingT] T arg = Some a" and t: "has_type arg T"
    by (simp_all add: Maybe_ctor_def)
  from OneOf_ctor_has_type[OF c t] have ty: "has_type a (OneOfT [Action, NothingT])" .
  then show "has_type a (Maybe Action)" by (simp add: Maybe_def)
  show "execute sts a machine k state event h = execute sts arg machine k state event h"
    using c by (rule OneOf_ctor_execute)
  from has_type_OneOfTD[OF ty] obtain i held where
    *: "a = OneOf i held" "i < 2" "has_type held ([Action, NothingT] ! i)" by auto
  from *(2) have "i = 0 \<or> i = 1" by auto
  then show "\<exists>i held. a = OneOf i held
              \<and> ((i = 0 \<and> has_type held Action)
                 \<or> (i = 1 \<and> held = Nothing
                      \<and> execute sts a machine k state event h = Some h))"
  proof
    assume "i = 0"
    with * show ?thesis by simp
  next
    assume i: "i = 1"
    with *(3) have "held = Nothing" by (cases held) simp_all
    with * i show ?thesis by simp
  qed
qed

theorem OneOf_executes_held_alternative_witness:
  "OneOf_ctor [TransitionToT 0, NothingT] NothingT Nothing = Some (OneOf 1 Nothing)
   \<and> OneOf_ctor [OneOfT [NothingT]] NothingT Nothing = Some (OneOf 0 (OneOf 0 Nothing))
   \<and> has_type (OneOf 0 (OneOf 0 Nothing)) (OneOfT [OneOfT [NothingT]])
   \<and> Maybe_ctor (TransitionToT 0) (TransitionToT 0) (TransitionTo 0) = Some (OneOf 0 (TransitionTo 0))
   \<and> has_type (OneOf 0 (TransitionTo 0)) (Maybe (TransitionToT 0))
   \<and> execute Door (OneOf 0 (TransitionTo 0)) 0 2 (Ptr 0 2) (UnlockEvent 1234) (door_heap 1234 2)
       = execute Door (TransitionTo 0) 0 2 (Ptr 0 2) (UnlockEvent 1234) (door_heap 1234 2)
   \<and> execute Door (TransitionTo 0) 0 2 (Ptr 0 2) (UnlockEvent 1234) (door_heap 1234 2)
       = Some (door_heap 1234 0)
   \<and> execute Door (OneOf 0 (OneOf 0 Nothing)) 0 2 (Ptr 0 2) (UnlockEvent 2) (door_heap 1234 2)
       = Some (door_heap 1234 2)"
proof -
  have c1: "OneOf_ctor [TransitionToT 0, NothingT] NothingT Nothing = Some (OneOf 1 Nothing)"
    by (simp add: OneOf_ctor.simps)
  have c2: "OneOf_ctor [OneOfT [NothingT]] NothingT Nothing = Some (OneOf 0 (OneOf 0 Nothing))"
    by (simp add: OneOf_ctor.simps)
  have c3: "Maybe_ctor (TransitionToT 0) (TransitionToT 0) (TransitionTo 0)
              = Some (OneOf 0 (TransitionTo 0))"
    by (simp add: Maybe_ctor_def OneOf_ctor.simps)
  have t1: "has_type Nothing NothingT" and t2: "has_type (TransitionTo 0) (TransitionToT 0)"
    by simp_all
  have t3: "has_type (OneOf 0 (OneOf 0 Nothing)) (OneOfT [OneOfT [NothingT]])" by simp
  have x: "execute Door (TransitionTo 0) 0 2 (Ptr 0 2) (UnlockEvent 1234) (door_heap 1234 2)
             = Some (door_heap 1234 0)"
    by (simp add: door_defs)
  note inst1 = OneOf_executes_held_alternative
    [where b = "OneOf 0 (OneOf 0 Nothing)" and Actions = "[OneOfT [NothingT]]" and T = NothingT
       and arg = Nothing and a = "OneOf 0 (OneOf 0 Nothing)" and sts = Door and machine = 0
       and k = 2 and state = "Ptr 0 2" and event = "UnlockEvent 2" and h = "door_heap 1234 2"
       and i = 0 and Action = "TransitionToT 0"]
  from inst1 c2 have "execute Door (OneOf 0 (OneOf 0 Nothing)) 0 2 (Ptr 0 2) (UnlockEvent 2)
        (door_heap 1234 2)
      = execute Door Nothing 0 2 (Ptr 0 2) (UnlockEvent 2) (door_heap 1234 2)"
    by blast
  then have e1: "execute Door (OneOf 0 (OneOf 0 Nothing)) 0 2 (Ptr 0 2) (UnlockEvent 2)
        (door_heap 1234 2) = Some (door_heap 1234 2)"
    by simp
  note inst2 = OneOf_executes_held_alternative
    [where b = "OneOf 0 (TransitionTo 0)" and Actions = "[TransitionToT 0, NothingT]"
       and T = "TransitionToT 0" and arg = "TransitionTo 0" and a = "OneOf 0 (TransitionTo 0)"
       and sts = Door and machine = 0 and k = 2 and state = "Ptr 0 2"
       and event = "UnlockEvent 1234" and h = "door_heap 1234 2" and i = 0
       and Action = "TransitionToT 0"]
  from inst2 c3 t2 have ty: "has_type (OneOf 0 (TransitionTo 0)) (Maybe (TransitionToT 0))"
    and e2: "execute Door (OneOf 0 (TransitionTo 0)) 0 2 (Ptr 0 2) (UnlockEvent 1234)
        (door_heap 1234 2)
      = execute Door (TransitionTo 0) 0 2 (Ptr 0 2) (UnlockEvent 1234) (door_heap 1234 2)"
    by blast+
  from c1 c2 t3 c3 ty e2 x e1 show ?thesis by blast
qed

text \<open>
  C1. A transition to \<open>Target\<close> executed for an event from the current state \<open>A\<close> of a
  machine runs three steps in this order. First the leave hook of \<open>A\<close> (when \<open>A\<close> has one for
  the event; nothing otherwise) is called in the heap given, in which \<open>A\<close> is current, and
  leaves \<open>A\<close> current. Then \<open>transitionTo<Target>()\<close> switches the current state. Then the
  enter hook of \<open>Target\<close> (when it has one) is called in the heap so obtained, in which
  \<open>Target\<close> is current and the states are as the leave hook left them. The hooks may read
  the heap they are called in, so the result depends on this order. \<open>handle\<close> of an event
  whose handler returns that transition is exactly this sequence: no event is processed
  between the hooks.
\<close>

theorem transition_leave_switch_enter:
  assumes "h this = Some M" and "current_ok this M"
    and "A = index (currentState M)" and "A < length sts"
    and "Target < length sts" and "Target < length (states M)"
    and "c = \<lparr>index = Target, pointer = Ptr this Target\<rparr>"
    and "s1 = (states M)[A := run_hook (onLeave (sts ! A) event) h (states M ! A)]"
    and "h1 = h(this \<mapsto> M\<lparr>states := s1\<rparr>)"
    and "h2 = h(this \<mapsto> M\<lparr>states := s1, currentState := c\<rparr>)"
    and "s2 = s1[Target := run_hook (onEnter (sts ! Target) event) h2 (s1 ! Target)]"
    and "h3 = h(this \<mapsto> M\<lparr>states := s2, currentState := c\<rparr>)"
  shows "current_index this h = Some A
       \<and> leave sts A (Ptr this A) event h = Some h1
       \<and> current_index this h1 = Some A
       \<and> transitionTo this Target h1 = Some (h2, Ptr this Target)
       \<and> current_index this h2 = Some Target
       \<and> enter sts Target (Ptr this Target) event h2 = Some h3
       \<and> current_index this h3 = Some Target
       \<and> TransitionTo_execute sts Target this A (Ptr this A) event h = Some h3
       \<and> (state_handle (sts ! A) (states M ! A) event = Some (TransitionTo Target) \<longrightarrow>
            handle sts event this h = Some h3)"
proof -
  from assms(2,3) have A: "A < length (states M)" "pointer (currentState M) = Ptr this A"
    by (simp_all add: current_ok_def)
  have 0: "current_index this h = Some A" "current_index this h1 = Some A"
    "current_index this h2 = Some Target" "current_index this h3 = Some Target"
    using assms(1,3,7,9,10,12) by (simp_all add: current_index_def)
  have 1: "leave sts A (Ptr this A) event h = Some h1"
    using leave_eq[where h = h and a = this and M = M and k = A and sts = sts and j = A
        and e = event] assms(1,4,8,9) A(1) by simp
  have 2: "transitionTo this Target h1 = Some (h2, Ptr this Target)"
    using transitionTo_eq[of h1 this "M\<lparr>states := s1\<rparr>" Target] assms(6,7,8,9,10) by simp
  have 3: "enter sts Target (Ptr this Target) event h2 = Some h3"
    using enter_eq[of h2 this "M\<lparr>states := s1, currentState := c\<rparr>" Target sts Target event]
      assms(5,6,8,10,11,12) by (simp add: StateMachine_update_commute)
  have 4: "TransitionTo_execute sts Target this A (Ptr this A) event h = Some h3"
    by (simp add: TransitionTo_execute_def 1 2 3)
  have 5: "handle sts event this h = Some h3"
    if "state_handle (sts ! A) (states M ! A) event = Some (TransitionTo Target)"
    using that assms(1,3,4) A 4 by (simp add: handle_def handleBy_def deref_def)
  from 0 1 2 3 4 5 show ?thesis by blast
qed

theorem transition_leave_switch_enter_witness:
  "leave [watching_type 0, watching_type 0] 0 (Ptr 0 0) 1 (watching_heap [None, None] 0)
     = Some (watching_heap [Some 0, None] 0)
   \<and> transitionTo 0 1 (watching_heap [Some 0, None] 0)
     = Some (watching_heap [Some 0, None] 1, Ptr 0 1)
   \<and> enter [watching_type 0, watching_type 0] 1 (Ptr 0 1) 1 (watching_heap [Some 0, None] 1)
     = Some (watching_heap [Some 0, Some 1] 1)
   \<and> TransitionTo_execute [watching_type 0, watching_type 0] 1 0 0 (Ptr 0 0) 1
        (watching_heap [None, None] 0)
     = Some (watching_heap [Some 0, Some 1] 1)
   \<and> handle [watching_type 0, watching_type 0] 1 0 (watching_heap [None, None] 0)
     = Some (watching_heap [Some 0, Some 1] 1)"
proof -
  let ?sts = "[watching_type 0, watching_type 0]"
  let ?M = "\<lparr>states = [None, None], currentState = \<lparr>index = 0, pointer = Ptr 0 0\<rparr>\<rparr>"
  let ?c = "\<lparr>index = 1, pointer = Ptr 0 1\<rparr>"
  have a1: "watching_heap [None, None] 0 0 = Some ?M" by (simp add: watching_heap_def)
  have a2: "current_ok 0 ?M" by (simp add: current_ok_def)
  have a3: "0 = index (currentState ?M)" by simp
  have a4: "0 < length ?sts" and a5: "1 < length ?sts" and a6: "1 < length (states ?M)"
    by simp_all
  have a8: "[Some 0, None] = (states ?M)[0 := run_hook (onLeave (?sts ! 0) (1::nat))
      (watching_heap [None, None] 0) (states ?M ! 0)]"
    by (simp add: watching_type_def watching_heap_def current_index_def)
  have a9: "watching_heap [Some 0, None] 0
      = (watching_heap [None, None] 0)(0 \<mapsto> ?M\<lparr>states := [Some 0, None]\<rparr>)"
    by (simp add: watching_heap_def)
  have a10: "watching_heap [Some 0, None] 1
      = (watching_heap [None, None] 0)(0 \<mapsto> ?M\<lparr>states := [Some 0, None], currentState := ?c\<rparr>)"
    by (simp add: watching_heap_def)
  have a11: "[Some 0, Some 1] = [Some 0, None][1 := run_hook (onEnter (?sts ! 1) (1::nat))
      (watching_heap [Some 0, None] 1) ([Some 0, None] ! 1)]"
    by (simp add: watching_type_def watching_heap_def current_index_def)
  have a12: "watching_heap [Some 0, Some 1] 1
      = (watching_heap [None, None] 0)(0 \<mapsto> ?M\<lparr>states := [Some 0, Some 1], currentState := ?c\<rparr>)"
    by (simp add: watching_heap_def)
  have b: "state_handle (?sts ! 0) (states ?M ! 0) (1::nat) = Some (TransitionTo 1)"
    by (simp add: watching_type_def)
  from transition_leave_switch_enter[OF a1 a2 a3 a4 a5 a6 refl a8 a9 a10 a11 a12] b
  show ?thesis by blast
qed

text \<open>
  C7. The door example: constructed with \<open>Locked(key = 0x11)\<close>, the door starts in
  \<open>Closed\<close>. \<open>Lock(newKey = 1234)\<close> makes \<open>Locked\<close> current and \<open>onEnter\<close> sets its key to
  1234. \<open>Unlock(key = 2)\<close> does not match: the handler returns the \<open>Nothing\<close> alternative and
  the door stays \<open>Locked\<close> with key 1234. \<open>Unlock(key = 1234)\<close> matches and makes \<open>Closed\<close>
  current.
\<close>

theorem door_scenario:
  "StateMachine_states [ClosedState, OpenState, LockedState 0x11] 0 Map.empty
     = Some (door_heap 0x11 0)
   \<and> state_handle (Door ! 0) ClosedState (LockEvent 1234) = Some (TransitionTo 2)
   \<and> enter Door 2 (Ptr 0 2) (LockEvent 1234) (door_heap 0x11 2) = Some (door_heap 1234 2)
   \<and> handle Door (LockEvent 1234) 0 (door_heap 0x11 0) = Some (door_heap 1234 2)
   \<and> state_handle (Door ! 2) (LockedState 1234) (UnlockEvent 2) = Some (OneOf 1 Nothing)
   \<and> handle Door (UnlockEvent 2) 0 (door_heap 1234 2) = Some (door_heap 1234 2)
   \<and> state_handle (Door ! 2) (LockedState 1234) (UnlockEvent 1234) = Some (OneOf 0 (TransitionTo 0))
   \<and> handle Door (UnlockEvent 1234) 0 (door_heap 1234 2) = Some (door_heap 1234 0)
   \<and> main = Some (door_heap 1234 0)"
proof -
  have 0: "StateMachine_states [ClosedState, OpenState, LockedState 0x11] 0 Map.empty
     = Some (door_heap 0x11 0)"
    by (simp add: door_defs)
  have 1: "handle Door (LockEvent 1234) 0 (door_heap 0x11 0) = Some (door_heap 1234 2)"
    by (simp add: door_defs)
  have 2: "handle Door (UnlockEvent 2) 0 (door_heap 1234 2) = Some (door_heap 1234 2)"
    by (simp add: door_defs)
  have 3: "handle Door (UnlockEvent 1234) 0 (door_heap 1234 2) = Some (door_heap 1234 0)"
    by (simp add: door_defs)
  have 4: "state_handle (Door ! 0) ClosedState (LockEvent 1234) = Some (TransitionTo 2)"
    by (simp add: door_defs)
  have 5: "enter Door 2 (Ptr 0 2) (LockEvent 1234) (door_heap 0x11 2) = Some (door_heap 1234 2)"
    by (simp add: door_defs)
  have 6: "state_handle (Door ! 2) (LockedState 1234) (UnlockEvent 2) = Some (OneOf 1 Nothing)"
    by (simp add: door_defs)
  have 7: "state_handle (Door ! 2) (LockedState 1234) (UnlockEvent 1234) = Some (OneOf 0 (TransitionTo 0))"
    by (simp add: door_defs)
  have 8: "main = Some (door_heap 1234 0)"
    by (simp add: main_def 0 1 2 3)
  from 0 1 2 3 4 5 6 7 8 show ?thesis by blast
qed

text \<open>
  C3. Copying or moving a machine, by construction or by assignment, gives the target the
  source's whole tuple of state instances (a move leaves the source's instances moved-from)
  and a current-state reference to the element of the target's own tuple at the position
  held by the source's variant index; the source's pointer and the state values play no
  part. After copying a machine whose current state is at position \<open>i\<close>, a \<open>transitionTo\<close>
  on the original leaves the copy's current state at position \<open>i\<close> of the copy, and
  \<open>handle\<close> on either machine leaves the other machine as it was.
\<close>

theorem copy_rederives_current_by_index:
  assumes "h other = Some M" and "index (currentState M) = i" and "i < length (states M)"
    and "c = \<lparr>index = i, pointer = Ptr this i\<rparr>"
  shows "StateMachine_copy this other h
           = Some (h(this \<mapsto> \<lparr>states = states M, currentState = c\<rparr>))
       \<and> (move_out sts (states M) = Some left \<longrightarrow>
            StateMachine_move sts this other h
              = Some (h(other \<mapsto> M\<lparr>states := left\<rparr>,
                        this \<mapsto> \<lparr>states = states M, currentState = c\<rparr>)))
       \<and> (this \<noteq> other \<and> h this = Some T \<longrightarrow>
            copy_assign this other h
              = Some (h(this \<mapsto> T\<lparr>states := states M, currentState := c\<rparr>), this))
       \<and> (this \<noteq> other \<and> h this = Some T \<and> move_out sts (states M) = Some left \<longrightarrow>
            move_assign sts this other h
              = Some (h(other \<mapsto> M\<lparr>states := left\<rparr>,
                        this \<mapsto> T\<lparr>states := states M, currentState := c\<rparr>), this))
       \<and> (this \<noteq> other \<and> C < length (states M) \<longrightarrow>
            (\<exists>h1 h2. StateMachine_copy this other h = Some h1
               \<and> transitionTo other C h1 = Some (h2, Ptr other C)
               \<and> h2 other = Some (M\<lparr>currentState := \<lparr>index = C, pointer = Ptr other C\<rparr>\<rparr>)
               \<and> h2 this = Some \<lparr>states = states M, currentState = c\<rparr>))
       \<and> (this \<noteq> other \<and> current_ok other M \<longrightarrow>
            (\<forall>h1 h2. StateMachine_copy this other h = Some h1 \<longrightarrow>
               (handle sts event other h1 = Some h2 \<longrightarrow> h2 this = h1 this)
               \<and> (handle sts event this h1 = Some h2 \<longrightarrow> h2 other = h other)))"
proof (intro conjI impI allI)
  let ?N = "\<lparr>states = states M, currentState = c\<rparr>"
  have copy: "StateMachine_copy this other h = Some (h(this \<mapsto> ?N))"
    using assms by (simp add: StateMachine_copy_eq)
  show "StateMachine_copy this other h = Some (h(this \<mapsto> ?N))" by (rule copy)
  {
    assume "move_out sts (states M) = Some left"
    then show "StateMachine_move sts this other h
              = Some (h(other \<mapsto> M\<lparr>states := left\<rparr>, this \<mapsto> ?N))"
      using assms by (simp add: StateMachine_move_def runtime_get_eq)
  }
  {
    assume "this \<noteq> other \<and> h this = Some T"
    then show "copy_assign this other h
              = Some (h(this \<mapsto> T\<lparr>states := states M, currentState := c\<rparr>), this)"
      using assms by (simp add: copy_assign_def runtime_get_eq)
  }
  {
    assume "this \<noteq> other \<and> h this = Some T \<and> move_out sts (states M) = Some left"
    then show "move_assign sts this other h
              = Some (h(other \<mapsto> M\<lparr>states := left\<rparr>,
                        this \<mapsto> T\<lparr>states := states M, currentState := c\<rparr>), this)"
      using assms by (simp add: move_assign_def runtime_get_eq)
  }
  {
    assume a: "this \<noteq> other \<and> C < length (states M)"
    let ?h1 = "h(this \<mapsto> ?N)"
    let ?h2 = "?h1(other \<mapsto> M\<lparr>currentState := \<lparr>index = C, pointer = Ptr other C\<rparr>\<rparr>)"
    have "?h1 other = Some M" using a assms(1) by simp
    then have "transitionTo other C ?h1 = Some (?h2, Ptr other C)"
      using a by (simp add: transitionTo_eq)
    moreover have "?h2 this = Some ?N" using a by simp
    moreover have "?h2 other = Some (M\<lparr>currentState := \<lparr>index = C, pointer = Ptr other C\<rparr>\<rparr>)"
      by simp
    ultimately show "\<exists>h1 h2. StateMachine_copy this other h = Some h1
               \<and> transitionTo other C h1 = Some (h2, Ptr other C)
               \<and> h2 other = Some (M\<lparr>currentState := \<lparr>index = C, pointer = Ptr other C\<rparr>\<rparr>)
               \<and> h2 this = Some ?N"
      using copy by blast
  }
  {
    fix h1 h2
    assume a: "this \<noteq> other \<and> current_ok other M"
      and c1: "StateMachine_copy this other h = Some h1"
    from c1 copy have h1: "h1 = h(this \<mapsto> ?N)" by simp
    from a assms(1) h1 have o: "h1 other = Some M" by simp
    have t: "h1 this = Some ?N" using h1 by simp
    have tok: "current_ok this ?N" using assms(3,4) by (simp add: current_ok_def)
    {
      assume "handle sts event other h1 = Some h2"
      from handle_frame[OF o _ this, of this] a show "h2 this = h1 this" by simp
    }
    {
      assume "handle sts event this h1 = Some h2"
      from handle_frame[OF t tok this, of other] a have "h2 other = h1 other" by simp
      with o assms(1) show "h2 other = h other" by simp
    }
  }
qed


theorem copy_rederives_current_by_index_witness:
  "StateMachine_copy 1 0 two_doors = Some (two_doors(1 \<mapsto> door_object 1 1234 2))
   \<and> StateMachine_move Door 1 0 two_doors = Some (two_doors(1 \<mapsto> door_object 1 1234 2))
   \<and> copy_assign 1 0 two_doors = Some (two_doors(1 \<mapsto> door_object 1 1234 2), 1)
   \<and> move_assign Door 1 0 two_doors = Some (two_doors(1 \<mapsto> door_object 1 1234 2), 1)
   \<and> transitionTo 0 1 (two_doors(1 \<mapsto> door_object 1 1234 2))
        = Some ([0 \<mapsto> door_object 0 1234 1, 1 \<mapsto> door_object 1 1234 2], Ptr 0 1)
   \<and> handle Door (UnlockEvent 1234) 0 (two_doors(1 \<mapsto> door_object 1 1234 2))
        = Some [0 \<mapsto> door_object 0 1234 0, 1 \<mapsto> door_object 1 1234 2]
   \<and> handle Door (UnlockEvent 1234) 1 (two_doors(1 \<mapsto> door_object 1 1234 2))
        = Some [0 \<mapsto> door_object 0 1234 2, 1 \<mapsto> door_object 1 1234 0]"
proof -
  have a1: "two_doors 0 = Some (door_object 0 1234 2)" by (simp add: two_doors_def)
  have a2: "index (currentState (door_object 0 1234 2)) = 2" by (simp add: door_object_def)
  have a3: "2 < length (states (door_object 0 1234 2))" by (simp add: door_object_def)
  have a4: "\<lparr>index = 2, pointer = Ptr 1 2\<rparr> = \<lparr>index = 2, pointer = Ptr 1 2\<rparr>" by simp
  have b1: "move_out Door (states (door_object 0 1234 2)) = Some [ClosedState, OpenState, LockedState 1234]"
    by (simp add: move_out_def door_object_def Door_def ClosedState_type_def OpenState_type_def
        LockedState_type_def)
  have b2: "two_doors 1 = Some (door_object 1 7 0)" by (simp add: two_doors_def)
  have b3: "current_ok 0 (door_object 0 1234 2)" by (simp add: current_ok_def door_object_def)
  have e1: "(door_object 0 1234 2)\<lparr>states := [ClosedState, OpenState, LockedState 1234]\<rparr>
              = door_object 0 1234 2"
    by (simp add: door_object_def)
  have e2: "\<lparr>states = states (door_object 0 1234 2), currentState = \<lparr>index = 2, pointer = Ptr 1 2\<rparr>\<rparr>
              = door_object 1 1234 2"
    by (simp add: door_object_def)
  have e3: "(door_object 1 7 0)\<lparr>states := states (door_object 0 1234 2),
              currentState := \<lparr>index = 2, pointer = Ptr 1 2\<rparr>\<rparr> = door_object 1 1234 2"
    by (simp add: door_object_def)
  have e4: "two_doors(0 \<mapsto> door_object 0 1234 2) = two_doors"
    using a1 by (simp add: fun_upd_idem)
  have t: "transitionTo 0 1 (two_doors(1 \<mapsto> door_object 1 1234 2))
        = Some ([0 \<mapsto> door_object 0 1234 1, 1 \<mapsto> door_object 1 1234 2], Ptr 0 1)"
    by (auto simp: two_doors_def transitionTo_def door_object_def variant_from_def Let_def)
  have h0: "handle Door (UnlockEvent 1234) 0 (two_doors(1 \<mapsto> door_object 1 1234 2))
        = Some [0 \<mapsto> door_object 0 1234 0, 1 \<mapsto> door_object 1 1234 2]"
    by (auto simp: two_doors_def door_object_def door_defs)
  have h1: "handle Door (UnlockEvent 1234) 1 (two_doors(1 \<mapsto> door_object 1 1234 2))
        = Some [0 \<mapsto> door_object 0 1234 2, 1 \<mapsto> door_object 1 1234 0]"
    by (auto simp: two_doors_def door_object_def door_defs)
  note inst = copy_rederives_current_by_index
    [where h = two_doors and other = 0 and M = "door_object 0 1234 2" and i = 2
       and c = "\<lparr>index = 2, pointer = Ptr 1 2\<rparr>" and this = 1 and sts = Door
       and left = "[ClosedState, OpenState, LockedState 1234]" and T = "door_object 1 7 0"
       and C = 1 and event = "UnlockEvent 1234", OF a1 a2 a3 a4]
  have ne: "(1::nat) \<noteq> 0" by simp
  from inst have "StateMachine_copy 1 0 two_doors
      = Some (two_doors(1 \<mapsto> \<lparr>states = states (door_object 0 1234 2),
                                 currentState = \<lparr>index = 2, pointer = Ptr 1 2\<rparr>\<rparr>))"
    by (rule conjunct1)
  then have c: "StateMachine_copy 1 0 two_doors = Some (two_doors(1 \<mapsto> door_object 1 1234 2))"
    by (simp only: e2)
  from inst b1 have "StateMachine_move Door 1 0 two_doors
      = Some (two_doors(0 \<mapsto> (door_object 0 1234 2)\<lparr>states := [ClosedState, OpenState, LockedState 1234]\<rparr>,
                        1 \<mapsto> \<lparr>states = states (door_object 0 1234 2),
                                 currentState = \<lparr>index = 2, pointer = Ptr 1 2\<rparr>\<rparr>))"
    by blast
  then have m: "StateMachine_move Door 1 0 two_doors = Some (two_doors(1 \<mapsto> door_object 1 1234 2))"
    by (simp only: e1 e2 e4)
  from inst ne b2 have "copy_assign 1 0 two_doors
      = Some (two_doors(1 \<mapsto> (door_object 1 7 0)\<lparr>states := states (door_object 0 1234 2),
                 currentState := \<lparr>index = 2, pointer = Ptr 1 2\<rparr>\<rparr>), 1)"
    by blast
  then have ca: "copy_assign 1 0 two_doors = Some (two_doors(1 \<mapsto> door_object 1 1234 2), 1)"
    by (simp only: e3)
  from inst ne b1 b2 have "move_assign Door 1 0 two_doors
      = Some (two_doors(0 \<mapsto> (door_object 0 1234 2)\<lparr>states := [ClosedState, OpenState, LockedState 1234]\<rparr>,
                        1 \<mapsto> (door_object 1 7 0)\<lparr>states := states (door_object 0 1234 2),
                 currentState := \<lparr>index = 2, pointer = Ptr 1 2\<rparr>\<rparr>), 1)"
    by blast
  then have ma: "move_assign Door 1 0 two_doors = Some (two_doors(1 \<mapsto> door_object 1 1234 2), 1)"
    by (simp only: e1 e3 e4)
  from c m ca ma t h0 h1 show ?thesis by blast
qed

text \<open>
  C2. Start from a heap in which every machine's current-state tag refers to the element
  of its own tuple at the tag's index (the empty heap is one), and perform any finite
  sequence of constructions, copies, moves, assignments, \<open>handle\<close> and \<open>transitionTo\<close> calls
  that build. Then the same holds of the resulting heap: for every machine exactly one
  position of its tuple is current, the tag is not null and points into that machine's own
  tuple, at an instance that exists.
\<close>

theorem current_state_is_own_instance:
  assumes "heap_ok h0" and "run sts calls h0 = Some h" and "h a = Some M"
  shows "heap_ok (\<lambda>a. None) \<and> heap_ok h
       \<and> (\<exists>!i. i < length (states M) \<and> currentState M = \<lparr>index = i, pointer = Ptr a i\<rparr>)
       \<and> deref h (pointer (currentState M)) = Some (states M ! index (currentState M))"
proof -
  have ok: "heap_ok h" using assms(1,2) by (rule run_ok)
  then have c: "current_ok a M" using assms(3) by (rule heap_okD)
  have "deref h (pointer (currentState M)) = Some (states M ! index (currentState M))"
    using c assms(3) by (simp add: current_ok_def deref_def)
  moreover have "heap_ok (\<lambda>a. None)" by (simp add: heap_ok_def)
  ultimately show ?thesis using ok current_ok_unique[OF c] by blast
qed

theorem current_state_is_own_instance_witness:
  "run Door [Construct 0 [ClosedState, OpenState, LockedState 0x11], Handle 0 (LockEvent 1234),
             CopyConstruct 1 0, TransitionToCall 0 1, Handle 1 (UnlockEvent 1234)] (\<lambda>a. None)
     = Some [0 \<mapsto> door_object 0 1234 1, 1 \<mapsto> door_object 1 1234 0]
   \<and> heap_ok [0 \<mapsto> door_object 0 1234 1, 1 \<mapsto> door_object 1 1234 0]
   \<and> (\<exists>!i. i < 3 \<and> currentState (door_object 1 1234 0) = \<lparr>index = i, pointer = Ptr 1 i\<rparr>)
   \<and> deref [0 \<mapsto> door_object 0 1234 1, 1 \<mapsto> door_object 1 1234 0] (Ptr 1 0) = Some ClosedState"
proof -
  let ?h = "[0 \<mapsto> door_object 0 1234 1, 1 \<mapsto> door_object 1 1234 0]"
  have 1: "heap_ok (\<lambda>a. None :: door_state StateMachine option)" by (simp add: heap_ok_def)
  have 2: "run Door [Construct 0 [ClosedState, OpenState, LockedState 0x11],
             Handle 0 (LockEvent 1234), CopyConstruct 1 0, TransitionToCall 0 1,
             Handle 1 (UnlockEvent 1234)] (\<lambda>a. None) = Some ?h"
    by (auto simp: door_defs door_object_def StateMachine_copy_def runtime_get_def)
  have 3: "?h 1 = Some (door_object 1 1234 0)" by simp
  note inst = current_state_is_own_instance[OF 1 2 3]
  from inst have ok: "heap_ok ?h" by blast
  have len: "length (states (door_object 1 1234 0)) = 3" by (simp add: door_object_def)
  from inst have "\<exists>!i. i < length (states (door_object 1 1234 0)) \<and>
      currentState (door_object 1 1234 0) = \<lparr>index = i, pointer = Ptr 1 i\<rparr>"
    by blast
  then have u: "\<exists>!i. i < 3 \<and> currentState (door_object 1 1234 0) = \<lparr>index = i, pointer = Ptr 1 i\<rparr>"
    by (simp only: len)
  have p: "pointer (currentState (door_object 1 1234 0)) = Ptr 1 0"
    and v: "states (door_object 1 1234 0) ! index (currentState (door_object 1 1234 0)) = ClosedState"
    by (simp_all add: door_object_def)
  from inst have "deref ?h (pointer (currentState (door_object 1 1234 0)))
      = Some (states (door_object 1 1234 0) ! index (currentState (door_object 1 1234 0)))"
    by blast
  then have d: "deref ?h (Ptr 1 0) = Some ClosedState" by (simp only: p v)
  from 2 ok u d show ?thesis by blast
qed

end
